theory Spec2Isabelle
  imports Complex_Main
begin

section \<open>The review pipeline: data model\<close>

text \<open>
  The component \<open>ReviewPipeline\<close> keeps an ordered list of agent configurations and, per
  agent id, the result of the agent's last execution. The hosting \<open>App\<close> owns the two
  counters \<open>mana\<close> and \<open>experience\<close>, the seed text and the credentials, and hands them
  down as props together with the callbacks \<open>onLog\<close> and \<open>onUpdateStats\<close>.

  JavaScript strings are modelled as HOL strings (code units below 256). The two counters
  start at integers and only ever change by 20 and 50, so they are integers. A JavaScript
  number that only travels through the program (\<open>maxTokens\<close>, \<open>temperature\<close>) is a real
  or one of the three values that are not finite: the configuration panel stores
  \<open>parseInt(e.target.value)\<close> and \<open>parseFloat(e.target.value)\<close>, which are \<open>NaN\<close> for a
  cleared field, and \<open>JSON.parse\<close> returns an infinity for a literal beyond the range of a
  double. The reals identify \<open>-0\<close> with \<open>0\<close>, as \<open>===\<close> does.
\<close>

datatype number = Finite real | NaN | PosInfinity | NegInfinity

fun finite_number :: "number \<Rightarrow> bool" where
  "finite_number (Finite x) = True"
| "finite_number n = False"

record AgentConfig =
  agent_id :: string
  name :: string
  description :: string
  provider :: string
  model :: string
  maxTokens :: number
  temperature :: number
  systemPrompt :: string

datatype status = Idle | Running | Completed | Error

text \<open>
  An \<open>AgentResult\<close> object. \<open>error\<close> and \<open>timestamp\<close> are optional properties. \<open>status\<close>
  is written by every object literal of \<open>executeAgent\<close>; it is absent only in the object
  that \<open>handleSaveOutput\<close> builds for an id with no entry (the spread of \<open>undefined\<close>
  contributes nothing).
\<close>

record AgentResult =
  status :: "status option"
  output_text :: string
  error :: "string option"
  timestamp :: "string option"

datatype severity = LogInfo | LogSuccess | LogError

text \<open>One call of \<open>generateText(prompt, apiKey, options)\<close>.\<close>

record request =
  req_prompt :: string
  req_apiKey :: "string option"
  req_model :: string
  req_maxTokens :: number
  req_temperature :: number
  req_provider :: string

text \<open>
  The state the handlers read and write: the \<open>App\<close> state that reaches the pipeline
  (\<open>mana\<close>, \<open>experience\<close>, \<open>apiKeys\<close>, the seed text \<open>globalInput\<close>, the log), the
  component's own state (\<open>agentConfigs\<close>, \<open>results\<close>), and the trace of provider calls
  issued so far. An event handler runs on the values of the last render, which are the
  current state: React renders again before it delivers the next event.
\<close>

record app =
  agentConfigs :: "AgentConfig list"
  results :: "string \<rightharpoonup> AgentResult"
  mana :: int
  experience :: int
  globalInput :: string
  apiKeys :: "string \<rightharpoonup> string"
  logs :: "(string \<times> severity) list"
  calls :: "request list"

section \<open>The callbacks of \<open>App\<close>\<close>

definition updateStats :: "int \<Rightarrow> int \<Rightarrow> app \<Rightarrow> app" where
  "updateStats manaCost xpGain s =
     s\<lparr>mana := max 0 (mana s - manaCost), experience := experience s + xpGain\<rparr>"

definition onLog :: "string \<Rightarrow> severity \<Rightarrow> app \<Rightarrow> app" where
  "onLog msg ty s = s\<lparr>logs := logs s @ [(msg, ty)]\<rparr>"

section \<open>Helpers for JavaScript reads\<close>

text \<open>\<open>xs[i]\<close>: \<open>undefined\<close> out of range.\<close>

definition nth_opt :: "'a list \<Rightarrow> nat \<Rightarrow> 'a option" where
  "nth_opt xs i = (if i < length xs then Some (xs ! i) else None)"

text \<open>
  \<open>String.prototype.trim\<close> strips white space and line terminators from both ends; of
  the code units below 256 these are TAB, LF, VT, FF, CR, SP and NBSP.
\<close>

definition whitespace :: "char \<Rightarrow> bool" where
  "whitespace c = (of_char c \<in> {9, 10, 11, 12, 13, 32, 160 :: nat})"

definition trim :: "string \<Rightarrow> string" where
  "trim s = rev (dropWhile whitespace (rev (dropWhile whitespace s)))"

text \<open>\<open>prev[id]?.output || ''\<close>\<close>

definition output_or_empty :: "(string \<rightharpoonup> AgentResult) \<Rightarrow> string \<Rightarrow> string" where
  "output_or_empty rs k = (case rs k of None \<Rightarrow> [] | Some r \<Rightarrow> output_text r)"

section \<open>\<open>executeAgent\<close>\<close>

text \<open>
  \<open>executeAgent\<close> is an async function with one \<open>await\<close>, on the provider call. The part
  before the \<open>await\<close> runs inside the click handler (\<open>executeAgent_start\<close>); the part after
  it runs when the provider's promise settles (\<open>executeAgent_settle\<close>), on whatever the
  state is by then, with the \<open>config\<close> the closure captured.

  The function returns nothing; its early returns differ by the message they log. The
  model names them: \<open>NoPreviousOutput\<close> is the dependency failure, \<open>EmptyInput\<close> the
  validation failure, \<open>NotEnoughMana\<close> the resource failure. \<open>TypeError\<close> is the exception
  of reading a property of \<open>undefined\<close> when the index is outside the list (the component
  only passes indices of rendered agents). \<open>Awaiting\<close> carries the captured config and
  the resolved input.
\<close>

datatype start_outcome =
  TypeError | NoPreviousOutput | EmptyInput | NotEnoughMana | Awaiting AgentConfig string

text \<open>Step 1 of the source: the input of the run, or the reason there is none.\<close>

datatype resolved = Input string | Missing | Undefined

definition resolve_input :: "nat \<Rightarrow> app \<Rightarrow> resolved" where
  "resolve_input index s =
     (if index = 0 then Input (globalInput s)
      else
        (case nth_opt (agentConfigs s) (index - 1) of
           None \<Rightarrow> Undefined
         | Some p \<Rightarrow>
             (case results s (agent_id p) of
                None \<Rightarrow> Missing
              | Some prevResult \<Rightarrow>
                  if output_text prevResult = [] then Missing else Input (output_text prevResult))))"

definition build_request :: "AgentConfig \<Rightarrow> string \<Rightarrow> app \<Rightarrow> request" where
  "build_request config inputContent s =
     \<lparr>req_prompt = systemPrompt config @ [CHR 0x0A, CHR 0x0A] @ ''[TASK INPUT]:'' @ [CHR 0x0A] @ inputContent,
      req_apiKey = apiKeys s (provider config),
      req_model = model config,
      req_maxTokens = maxTokens config,
      req_temperature = temperature config,
      req_provider = provider config\<rparr>"

definition set_running :: "AgentConfig \<Rightarrow> app \<Rightarrow> app" where
  "set_running config s =
     s\<lparr>results := (results s)(agent_id config \<mapsto>
        \<lparr>status = Some Running, output_text = output_or_empty (results s) (agent_id config),
         error = None, timestamp = None\<rparr>)\<rparr>"

definition issue_call :: "request \<Rightarrow> app \<Rightarrow> app" where
  "issue_call r s = s\<lparr>calls := calls s @ [r]\<rparr>"

definition executeAgent_start :: "nat \<Rightarrow> app \<Rightarrow> start_outcome \<times> app" where
  "executeAgent_start index s =
     (let config = nth_opt (agentConfigs s) index in
      case resolve_input index s of
        Undefined \<Rightarrow> (TypeError, s)
      | Missing \<Rightarrow>
          (case config of
             None \<Rightarrow> (TypeError, s)
           | Some c \<Rightarrow>
               (NoPreviousOutput,
                onLog (''Cannot run '' @ name c @ ''. Previous agent has no output.'') LogError s))
      | Input inputContent \<Rightarrow>
          if trim inputContent = [] then
            (case config of
               None \<Rightarrow> (TypeError, s)
             | Some c \<Rightarrow> (EmptyInput, onLog (''Input for '' @ name c @ '' is empty.'') LogError s))
          else if mana s < 20 then
            (NotEnoughMana, onLog ''Not enough Mana!'' LogError s)
          else
            (let s1 = updateStats 20 0 s in
             case config of
               None \<Rightarrow> (TypeError, s1)
             | Some c \<Rightarrow>
                 (Awaiting c inputContent,
                  issue_call (build_request c inputContent s)
                    (onLog (''Agent '' @ name c @ '' started...'') LogInfo
                      (set_running c s1)))))"

text \<open>
  What the awaited call gives back: the promise rejects with an error message, or
  resolves with a value that may be missing (\<open>undefined\<close>, \<open>null\<close>) or a string.
\<close>

datatype reply = Threw string | Returned "string option"

text \<open>The text of a reply that passes \<open>if (!response) throw ...\<close>; otherwise the message
  the \<open>catch\<close> block sees.\<close>

fun response_of :: "reply \<Rightarrow> string + string" where
  "response_of (Threw msg) = Inl msg"
| "response_of (Returned None) = Inl ''Empty response''"
| "response_of (Returned (Some t)) = (if t = [] then Inl ''Empty response'' else Inr t)"

definition executeAgent_settle :: "AgentConfig \<Rightarrow> reply \<Rightarrow> string \<Rightarrow> app \<Rightarrow> app" where
  "executeAgent_settle config r now s =
     (case response_of r of
        Inr response \<Rightarrow>
          onLog (''Agent '' @ name config @ '' completed.'') LogSuccess
            (updateStats 0 50
              (s\<lparr>results := (results s)(agent_id config \<mapsto>
                  \<lparr>status = Some Completed, output_text = response,
                   error = None, timestamp = Some now\<rparr>)\<rparr>))
      | Inl msg \<Rightarrow>
          onLog (''Agent '' @ name config @ '' failed: '' @ msg) LogError
            (s\<lparr>results := (results s)(agent_id config \<mapsto>
                \<lparr>status = Some Error, output_text = output_or_empty (results s) (agent_id config),
                 error = Some msg, timestamp = None\<rparr>)\<rparr>))"

text \<open>
  \<open>App\<close> renders the component only while the pipeline tab is open. When the tab is left
  with a provider call pending, the component is unmounted and the continuation runs
  later on: its \<open>setResults\<close> belongs to the unmounted instance and changes nothing that
  can be seen, while \<open>onUpdateStats\<close> and \<open>onLog\<close> still reach \<open>App\<close>.
\<close>

definition executeAgent_settle_unmounted ::
  "AgentConfig \<Rightarrow> reply \<Rightarrow> string \<Rightarrow> app \<Rightarrow> app" where
  "executeAgent_settle_unmounted config r now s =
     (case response_of r of
        Inr response \<Rightarrow>
          onLog (''Agent '' @ name config @ '' completed.'') LogSuccess (updateStats 0 50 s)
      | Inl msg \<Rightarrow> onLog (''Agent '' @ name config @ '' failed: '' @ msg) LogError s)"

text \<open>One whole run with nothing in between: the provider's reply \<open>r\<close> and the clock
  reading \<open>now\<close> are inputs.\<close>

definition executeAgent :: "nat \<Rightarrow> reply \<Rightarrow> string \<Rightarrow> app \<Rightarrow> start_outcome \<times> app" where
  "executeAgent index r now s =
     (case executeAgent_start index s of
        (Awaiting c inputContent, s1) \<Rightarrow> (Awaiting c inputContent, executeAgent_settle c r now s1)
      | (out, s1) \<Rightarrow> (out, s1))"

section \<open>The Run button and the output editor\<close>

text \<open>
  The only caller of \<open>executeAgent\<close> is the Run button of an agent, rendered with
  \<open>disabled={result.status === 'running'}\<close> where \<open>result\<close> is the stored result of the
  agent's id, or \<open>{status: 'idle', output: ''}\<close> when there is none. A disabled button
  delivers no click.
\<close>

definition run_disabled :: "AgentConfig \<Rightarrow> app \<Rightarrow> bool" where
  "run_disabled agent s =
     (case results s (agent_id agent) of None \<Rightarrow> False | Some r \<Rightarrow> status r = Some Running)"

definition click_run :: "nat \<Rightarrow> app \<Rightarrow> start_outcome option \<times> app" where
  "click_run index s =
     (case nth_opt (agentConfigs s) index of
        None \<Rightarrow> (None, s)
      | Some agent \<Rightarrow>
          if run_disabled agent s then (None, s)
          else (case executeAgent_start index s of (out, s') \<Rightarrow> (Some out, s')))"

definition handleSaveOutput :: "string \<Rightarrow> string \<Rightarrow> app \<Rightarrow> app" where
  "handleSaveOutput agentId newText s =
     s\<lparr>results := (results s)(agentId \<mapsto>
        (case results s agentId of
           None \<Rightarrow> \<lparr>status = None, output_text = newText, error = None, timestamp = None\<rparr>
         | Some r \<Rightarrow> r\<lparr>output_text := newText\<rparr>))\<rparr>"

text \<open>Reads of a stored result's properties, \<open>undefined\<close> when there is no entry.\<close>

definition status_of :: "app \<Rightarrow> string \<Rightarrow> status option" where
  "status_of s k = (case results s k of None \<Rightarrow> None | Some r \<Rightarrow> status r)"

definition error_of :: "app \<Rightarrow> string \<Rightarrow> string option" where
  "error_of s k = (case results s k of None \<Rightarrow> None | Some r \<Rightarrow> error r)"

definition timestamp_of :: "app \<Rightarrow> string \<Rightarrow> string option" where
  "timestamp_of s k = (case results s k of None \<Rightarrow> None | Some r \<Rightarrow> timestamp r)"

definition output_of :: "app \<Rightarrow> string \<Rightarrow> string option" where
  "output_of s k = (case results s k of None \<Rightarrow> None | Some r \<Rightarrow> Some (output_text r))"

section \<open>\<open>handleUpdateConfig\<close>\<close>

text \<open>
  An entry of the table \<open>AI_MODELS\<close> (its \<open>id\<close>, \<open>name\<close> and \<open>provider\<close>). The table is a
  constant of a module outside the two source files, so it is a parameter here.
\<close>

record AIModel =
  model_id :: string
  model_name :: string
  model_provider :: string

text \<open>The pair \<open>(field, value)\<close> of a call, with the value at the field's type.\<close>

datatype field_update =
  SetId string | SetName string | SetDescription string | SetProvider string
  | SetModel string | SetMaxTokens number | SetTemperature number | SetSystemPrompt string

text \<open>\<open>modelInfo?.provider || 'gemini'\<close> with \<open>modelInfo = AI_MODELS.find(m => m.id === value)\<close>\<close>

definition provider_for :: "AIModel list \<Rightarrow> string \<Rightarrow> string" where
  "provider_for AI_MODELS v =
     (case find (\<lambda>m. model_id m = v) AI_MODELS of
        None \<Rightarrow> ''gemini''
      | Some modelInfo \<Rightarrow>
          if model_provider modelInfo = [] then ''gemini'' else model_provider modelInfo)"

fun update_one :: "AIModel list \<Rightarrow> field_update \<Rightarrow> AgentConfig \<Rightarrow> AgentConfig" where
  "update_one AI_MODELS (SetModel v) c = c\<lparr>model := v, provider := provider_for AI_MODELS v\<rparr>"
| "update_one AI_MODELS (SetId v) c = c\<lparr>agent_id := v\<rparr>"
| "update_one AI_MODELS (SetName v) c = c\<lparr>name := v\<rparr>"
| "update_one AI_MODELS (SetDescription v) c = c\<lparr>description := v\<rparr>"
| "update_one AI_MODELS (SetProvider v) c = c\<lparr>provider := v\<rparr>"
| "update_one AI_MODELS (SetMaxTokens v) c = c\<lparr>maxTokens := v\<rparr>"
| "update_one AI_MODELS (SetTemperature v) c = c\<lparr>temperature := v\<rparr>"
| "update_one AI_MODELS (SetSystemPrompt v) c = c\<lparr>systemPrompt := v\<rparr>"

definition handleUpdateConfig ::
  "AIModel list \<Rightarrow> string \<Rightarrow> field_update \<Rightarrow> AgentConfig list \<Rightarrow> AgentConfig list" where
  "handleUpdateConfig AI_MODELS i upd prev =
     map (\<lambda>c. if agent_id c \<noteq> i then c else update_one AI_MODELS upd c) prev"

section \<open>Export and import of the configuration list\<close>

text \<open>
  \<open>handleDownloadSettings\<close> writes \<open>JSON.stringify(agentConfigs, null, 2)\<close> to a file;
  \<open>handleUploadSettings\<close> reads a file, calls \<open>JSON.parse\<close>, checks the value and stores
  it with \<open>setAgentConfigs(parsed)\<close> as it is. Both built-ins belong to the platform. The
  model works on values instead of texts: \<open>json\<close> is a JavaScript value built from
  \<open>null\<close>, booleans, numbers, strings, arrays and plain objects; the stored list is a
  list of such values, a configuration is the object \<open>config_json c\<close>, and a payload is
  no file at all, a text that \<open>JSON.parse\<close> rejects, or the value it returns. \<open>JObj\<close>
  lists the own properties of an object in order, each key once.
\<close>

datatype json =
  JNull | JBool bool | JNum number | JStr string | JArr "json list"
  | JObj "(string \<times> json) list"

definition config_json :: "AgentConfig \<Rightarrow> json" where
  "config_json c =
     JObj [(''id'', JStr (agent_id c)), (''name'', JStr (name c)),
           (''description'', JStr (description c)), (''provider'', JStr (provider c)),
           (''model'', JStr (model c)), (''maxTokens'', JNum (maxTokens c)),
           (''temperature'', JNum (temperature c)),
           (''systemPrompt'', JStr (systemPrompt c))]"

text \<open>JavaScript truthiness of a JSON value.\<close>

fun truthy :: "json \<Rightarrow> bool" where
  "truthy JNull = False"
| "truthy (JBool b) = b"
| "truthy (JNum n) = (case n of Finite x \<Rightarrow> x \<noteq> 0 | NaN \<Rightarrow> False | _ \<Rightarrow> True)"
| "truthy (JStr t) = (t \<noteq> [])"
| "truthy (JArr xs) = True"
| "truthy (JObj kvs) = True"

text \<open>
  \<open>x.id\<close>: reading a property of \<open>null\<close> throws (\<open>Inl ()\<close>), an object gives its own
  property or \<open>undefined\<close>, and a boolean, number, string or array has no property \<open>id\<close>.
\<close>

fun read_id :: "json \<Rightarrow> unit + json option" where
  "read_id JNull = Inl ()"
| "read_id (JObj kvs) = Inr (map_of kvs ''id'')"
| "read_id x = Inr None"

text \<open>\<open>Array.isArray(parsed) && parsed.length > 0 && parsed[0].id\<close>, a throw counted as
  a failure since the same \<open>catch\<close> takes both.\<close>

definition upload_accepts :: "json \<Rightarrow> bool" where
  "upload_accepts parsed =
     (case parsed of
        JArr xs \<Rightarrow>
          length xs > 0 \<and>
          (case read_id (hd xs) of
             Inl u \<Rightarrow> False
           | Inr None \<Rightarrow> False
           | Inr (Some v) \<Rightarrow> truthy v)
      | _ \<Rightarrow> False)"

definition array_items :: "json \<Rightarrow> json list" where
  "array_items v = (case v of JArr xs \<Rightarrow> xs | _ \<Rightarrow> [])"

datatype payload = NoFile | Malformed | Parsed json

definition handleUploadSettings ::
  "payload \<Rightarrow> json list \<Rightarrow> (string \<times> severity) option \<times> json list" where
  "handleUploadSettings p current =
     (case p of
        NoFile \<Rightarrow> (None, current)
      | Malformed \<Rightarrow> (Some (''Failed to parse settings file.'', LogError), current)
      | Parsed parsed \<Rightarrow>
          if upload_accepts parsed
          then (Some (''Agent configurations loaded successfully.'', LogSuccess),
                array_items parsed)
          else (Some (''Failed to parse settings file.'', LogError), current))"

text \<open>
  The value that the text \<open>JSON.stringify(v)\<close> denotes. A number that is not finite is
  written as \<open>null\<close>, at every depth; everything else is written as it is.
\<close>

primrec stringify :: "json \<Rightarrow> json" where
  "stringify JNull = JNull"
| "stringify (JBool b) = JBool b"
| "stringify (JNum n) = (if finite_number n then JNum n else JNull)"
| "stringify (JStr t) = JStr t"
| "stringify (JArr xs) = JArr (map stringify xs)"
| "stringify (JObj kvs) = JObj (map (map_prod id stringify) kvs)"

definition handleDownloadSettings :: "json list \<Rightarrow> json \<times> (string \<times> severity)" where
  "handleDownloadSettings current =
     (stringify (JArr current), (''Agent configurations downloaded.'', LogSuccess))"

section \<open>Sequences of events\<close>

text \<open>
  What can happen to the state, in any order: a run is started, a pending provider call
  settles (for the config its run captured), an output is edited, a configuration field
  is edited, a file holding the configurations \<open>cs\<close> is imported, the seed text is
  typed, the pipeline tab is left and opened again (the component is mounted afresh, with
  the list \<open>DEFAULT_PIPELINE_CONFIG\<close>, a constant outside the source files that the event
  carries, and no results), a provider call of an unmounted instance settles.
\<close>

datatype event =
  Start nat
  | Settle AgentConfig reply string
  | SaveOutput string string
  | UpdateConfig string field_update
  | Upload "AgentConfig list"
  | SetInput string
  | Remount "AgentConfig list"
  | SettleUnmounted AgentConfig reply string

definition upload_configs :: "AgentConfig list \<Rightarrow> app \<Rightarrow> app" where
  "upload_configs cs s =
     (case handleUploadSettings (Parsed (JArr (map config_json cs)))
             (map config_json (agentConfigs s)) of
        (Some (msg, LogSuccess), stored) \<Rightarrow> onLog msg LogSuccess (s\<lparr>agentConfigs := cs\<rparr>)
      | (Some (msg, ty), stored) \<Rightarrow> onLog msg ty s
      | (None, stored) \<Rightarrow> s)"

fun step :: "AIModel list \<Rightarrow> event \<Rightarrow> app \<Rightarrow> app" where
  "step AI_MODELS (Start index) s = snd (executeAgent_start index s)"
| "step AI_MODELS (Settle config r now) s = executeAgent_settle config r now s"
| "step AI_MODELS (SaveOutput agentId newText) s = handleSaveOutput agentId newText s"
| "step AI_MODELS (UpdateConfig i upd) s =
     s\<lparr>agentConfigs := handleUpdateConfig AI_MODELS i upd (agentConfigs s)\<rparr>"
| "step AI_MODELS (Upload cs) s = upload_configs cs s"
| "step AI_MODELS (SetInput t) s = s\<lparr>globalInput := t\<rparr>"
| "step AI_MODELS (Remount defaults) s = s\<lparr>agentConfigs := defaults, results := Map.empty\<rparr>"
| "step AI_MODELS (SettleUnmounted config r now) s = executeAgent_settle_unmounted config r now s"

fun run_events :: "AIModel list \<Rightarrow> event list \<Rightarrow> app \<Rightarrow> app" where
  "run_events AI_MODELS [] s = s"
| "run_events AI_MODELS (e # es) s = run_events AI_MODELS es (step AI_MODELS e s)"

section \<open>A session at the user interface\<close>

text \<open>
  What the user and the provider can make happen. A run starts only through the Run
  button. \<open>pending\<close> lists the configs of the runs of the mounted component whose
  provider call has not settled, \<open>orphaned\<close> those of runs started by instances that have
  been unmounted since; a reply settles one of them, chosen by its position.
\<close>

record session =
  live :: app
  pending :: "AgentConfig list"
  orphaned :: "AgentConfig list"

datatype ui_event =
  ClickRun nat
  | ProviderReplies nat reply string
  | OrphanReplies nat reply string
  | EditOutput string string
  | EditField string field_update
  | ImportFile "AgentConfig list"
  | TypeSeed string
  | LeaveAndReturn "AgentConfig list"

definition drop_nth :: "nat \<Rightarrow> 'a list \<Rightarrow> 'a list" where
  "drop_nth k xs = take k xs @ drop (Suc k) xs"

fun ui_step :: "AIModel list \<Rightarrow> ui_event \<Rightarrow> session \<Rightarrow> session" where
  "ui_step AI_MODELS (ClickRun index) u =
     (case click_run index (live u) of
        (Some (Awaiting c t), s') \<Rightarrow> u\<lparr>live := s', pending := pending u @ [c]\<rparr>
      | (out, s') \<Rightarrow> u\<lparr>live := s'\<rparr>)"
| "ui_step AI_MODELS (ProviderReplies k r now) u =
     (if k < length (pending u)
      then u\<lparr>live := executeAgent_settle (pending u ! k) r now (live u),
             pending := drop_nth k (pending u)\<rparr>
      else u)"
| "ui_step AI_MODELS (OrphanReplies k r now) u =
     (if k < length (orphaned u)
      then u\<lparr>live := executeAgent_settle_unmounted (orphaned u ! k) r now (live u),
             orphaned := drop_nth k (orphaned u)\<rparr>
      else u)"
| "ui_step AI_MODELS (EditOutput agentId newText) u =
     u\<lparr>live := handleSaveOutput agentId newText (live u)\<rparr>"
| "ui_step AI_MODELS (EditField i upd) u =
     u\<lparr>live := step AI_MODELS (UpdateConfig i upd) (live u)\<rparr>"
| "ui_step AI_MODELS (ImportFile cs) u = u\<lparr>live := upload_configs cs (live u)\<rparr>"
| "ui_step AI_MODELS (TypeSeed t) u = u\<lparr>live := step AI_MODELS (SetInput t) (live u)\<rparr>"
| "ui_step AI_MODELS (LeaveAndReturn defaults) u =
     \<lparr>live = step AI_MODELS (Remount defaults) (live u), pending = [],
      orphaned = orphaned u @ pending u\<rparr>"

fun ui_run :: "AIModel list \<Rightarrow> ui_event list \<Rightarrow> session \<Rightarrow> session" where
  "ui_run AI_MODELS [] u = u"
| "ui_run AI_MODELS (e # es) u = ui_run AI_MODELS es (ui_step AI_MODELS e u)"

text \<open>No two pending runs of the mounted component are for the same id, and the stored
  result of each is \<open>Running\<close>.\<close>

definition exclusive :: "session \<Rightarrow> bool" where
  "exclusive u =
     (distinct (map agent_id (pending u)) \<and>
      list_all (\<lambda>c. status_of (live u) (agent_id c) = Some Running) (pending u))"

section \<open>A concrete session\<close>

text \<open>
  A two-agent pipeline in the initial state of \<open>App\<close> (\<open>mana\<close> 60, \<open>experience\<close> 1200, no
  credentials entered, no results), with a seed text typed in, and a model table with
  one model per provider.
\<close>

definition agent1 :: AgentConfig where
  "agent1 = \<lparr>agent_id = ''a1'', name = ''Intake'', description = ''Summarises the submission'',
     provider = ''gemini'', model = ''gemini-2.5-flash'', maxTokens = Finite 2048,
     temperature = Finite 0,
     systemPrompt = ''Summarise.''\<rparr>"

definition agent2 :: AgentConfig where
  "agent2 = \<lparr>agent_id = ''a2'', name = ''Reviewer'', description = ''Reviews the summary'',
     provider = ''openai'', model = ''gpt-4o'', maxTokens = Finite 1024,
     temperature = Finite 1,
     systemPrompt = ''Review.''\<rparr>"

definition models :: "AIModel list" where
  "models = [\<lparr>model_id = ''gemini-2.5-flash'', model_name = ''Gemini Flash'', model_provider = ''gemini''\<rparr>,
             \<lparr>model_id = ''gpt-4o'', model_name = ''GPT-4o'', model_provider = ''openai''\<rparr>]"

definition initial_app :: app where
  "initial_app = \<lparr>agentConfigs = [agent1, agent2], results = Map.empty, mana = 60,
     experience = 1200, globalInput = ''Device X indications'',
     apiKeys = [''openai'' \<mapsto> [], ''gemini'' \<mapsto> [], ''anthropic'' \<mapsto> [], ''xai'' \<mapsto> []],
     logs = [], calls = []\<rparr>"

text \<open>Agent 1 has succeeded once and then failed on a second run.\<close>

definition rerun_failed_app :: app where
  "rerun_failed_app =
     run_events models
       [Start 0, Settle agent1 (Returned (Some ''Summary A'')) ''10:00:00'',
        Start 0, Settle agent1 (Threw ''Network error'') ''10:01:00'']
       initial_app"

text \<open>Agent 1 has been started and its provider call is still pending.\<close>

definition pending_app :: app where
  "pending_app = run_events models [Start 0] initial_app"


text \<open>The component has just been mounted with the two agents.\<close>

definition fresh_session :: session where
  "fresh_session = \<lparr>live = initial_app, pending = [], orphaned = []\<rparr>"

text \<open>Run is clicked on agent 1, the tab is left and opened again while the call is pending,
  and Run is clicked on agent 1 again.\<close>

definition revisited_session :: session where
  "revisited_session =
     ui_run models [ClickRun 0, LeaveAndReturn [agent1, agent2], ClickRun 0] fresh_session"

section \<open>Basic facts about the handlers\<close>

lemma trim_empty_iff: "trim t = [] \<longleftrightarrow> (\<forall>c\<in>set t. whitespace c)"
proof
  assume "trim t = []"
  then have a: "\<forall>c\<in>set (dropWhile whitespace t). whitespace c"
    by (simp add: trim_def dropWhile_eq_Nil_conv)
  have "dropWhile whitespace t = []"
  proof (rule ccontr)
    assume n: "dropWhile whitespace t \<noteq> []"
    then have "\<not> whitespace (hd (dropWhile whitespace t))" by (rule hd_dropWhile)
    moreover have "hd (dropWhile whitespace t) \<in> set (dropWhile whitespace t)" using n by simp
    ultimately show False using a by blast
  qed
  then show "\<forall>c\<in>set t. whitespace c" by (simp add: dropWhile_eq_Nil_conv)
next
  assume "\<forall>c\<in>set t. whitespace c"
  then have d: "dropWhile whitespace t = []" by (simp add: dropWhile_eq_Nil_conv)
  show "trim t = []" unfolding trim_def d by simp
qed

lemma updateStats_simps [simp]:
  "mana (updateStats a b s) = max 0 (mana s - a)"
  "experience (updateStats a b s) = experience s + b"
  "results (updateStats a b s) = results s"
  "agentConfigs (updateStats a b s) = agentConfigs s"
  "logs (updateStats a b s) = logs s"
  "calls (updateStats a b s) = calls s"
  "globalInput (updateStats a b s) = globalInput s"
  "apiKeys (updateStats a b s) = apiKeys s"
  by (simp_all add: updateStats_def)

lemma onLog_simps [simp]:
  "mana (onLog m t s) = mana s"
  "experience (onLog m t s) = experience s"
  "results (onLog m t s) = results s"
  "agentConfigs (onLog m t s) = agentConfigs s"
  "logs (onLog m t s) = logs s @ [(m, t)]"
  "calls (onLog m t s) = calls s"
  "globalInput (onLog m t s) = globalInput s"
  "apiKeys (onLog m t s) = apiKeys s"
  by (simp_all add: onLog_def)

lemma set_running_simps [simp]:
  "mana (set_running c s) = mana s"
  "experience (set_running c s) = experience s"
  "agentConfigs (set_running c s) = agentConfigs s"
  "logs (set_running c s) = logs s"
  "calls (set_running c s) = calls s"
  "globalInput (set_running c s) = globalInput s"
  "apiKeys (set_running c s) = apiKeys s"
  by (simp_all add: set_running_def)

lemma issue_call_simps [simp]:
  "mana (issue_call r s) = mana s"
  "experience (issue_call r s) = experience s"
  "results (issue_call r s) = results s"
  "agentConfigs (issue_call r s) = agentConfigs s"
  "logs (issue_call r s) = logs s"
  "calls (issue_call r s) = calls s @ [r]"
  "globalInput (issue_call r s) = globalInput s"
  "apiKeys (issue_call r s) = apiKeys s"
  by (simp_all add: issue_call_def)

lemma start_missing:
  assumes "i < length (agentConfigs s)" "resolve_input i s = Missing"
  shows "executeAgent_start i s =
    (NoPreviousOutput,
     onLog (''Cannot run '' @ name (agentConfigs s ! i) @ ''. Previous agent has no output.'') LogError s)"
  using assms by (simp add: executeAgent_start_def nth_opt_def)

lemma start_blank:
  assumes "i < length (agentConfigs s)" "resolve_input i s = Input t" "trim t = []"
  shows "executeAgent_start i s =
    (EmptyInput, onLog (''Input for '' @ name (agentConfigs s ! i) @ '' is empty.'') LogError s)"
  using assms by (simp add: executeAgent_start_def nth_opt_def)

lemma start_poor:
  assumes "resolve_input i s = Input t" "trim t \<noteq> []" "mana s < 20"
  shows "executeAgent_start i s = (NotEnoughMana, onLog ''Not enough Mana!'' LogError s)"
  using assms by (simp add: executeAgent_start_def)

lemma start_runs:
  assumes "i < length (agentConfigs s)" "resolve_input i s = Input t" "trim t \<noteq> []"
    "\<not> mana s < 20"
  shows "executeAgent_start i s =
    (Awaiting (agentConfigs s ! i) t,
     issue_call (build_request (agentConfigs s ! i) t s)
       (onLog (''Agent '' @ name (agentConfigs s ! i) @ '' started...'') LogInfo
         (set_running (agentConfigs s ! i) (updateStats 20 0 s))))"
  using assms by (simp add: executeAgent_start_def nth_opt_def Let_def)

lemma start_mana:
  "mana (snd (executeAgent_start i s)) = mana s \<or>
   (20 \<le> mana s \<and> mana (snd (executeAgent_start i s)) = mana s - 20)"
  by (auto simp: executeAgent_start_def Let_def split: resolved.splits option.splits)

lemma settle_mana: "0 \<le> mana s \<Longrightarrow> mana (executeAgent_settle c r now s) = mana s"
  by (simp add: executeAgent_settle_def split: sum.splits)


lemma step_mana:
  assumes "0 \<le> mana s"
  shows "0 \<le> mana (step tbl e s) \<and> mana (step tbl e s) \<le> mana s"
proof (cases e)
  case (Start i)
  then show ?thesis using assms start_mana [of i s] by auto
next
  case (Settle c r now)
  then show ?thesis using assms by (simp add: settle_mana)
next
  case (Upload cs)
  then show ?thesis using assms
    by (simp add: upload_configs_def handleUploadSettings_def split: prod.splits option.splits severity.splits if_splits)
next
  case (SettleUnmounted c r now)
  then show ?thesis using assms
    by (simp add: executeAgent_settle_unmounted_def split: sum.splits)
qed (use assms in \<open>simp_all add: handleSaveOutput_def\<close>)

lemma run_events_mana:
  "0 \<le> mana s \<Longrightarrow> 0 \<le> mana (run_events tbl es s) \<and> mana (run_events tbl es s) \<le> mana s"
proof (induction es arbitrary: s)
  case Nil
  then show ?case by simp
next
  case (Cons e es)
  from step_mana [OF Cons.prems, of tbl e]
  have a: "0 \<le> mana (step tbl e s)" and b: "mana (step tbl e s) \<le> mana s" by auto
  from Cons.IH [OF a] b show ?case by simp
qed

section \<open>Dependency on the previous step\<close>


lemma executeAgent_not_awaiting:
  "(\<And>c t. fst (executeAgent_start i s) \<noteq> Awaiting c t) \<Longrightarrow>
     executeAgent i r now s = executeAgent_start i s"
  by (cases "executeAgent_start i s"; cases "fst (executeAgent_start i s)")
     (auto simp: executeAgent_def)

lemma resolve_input_succ:
  assumes "0 < i" "i < length (agentConfigs s)"
  shows "resolve_input i s =
    (case output_of s (agent_id (agentConfigs s ! (i - 1))) of
       None \<Rightarrow> Missing
     | Some t \<Rightarrow> if t = [] then Missing else Input t)"
proof -
  have "i - 1 < length (agentConfigs s)" using assms by simp
  then have "nth_opt (agentConfigs s) (i - 1) = Some (agentConfigs s ! (i - 1))"
    unfolding nth_opt_def by (rule if_P)
  moreover have "i \<noteq> 0" using assms by simp
  ultimately show ?thesis
    by (cases "results s (agent_id (agentConfigs s ! (i - 1)))")
       (simp_all add: resolve_input_def output_of_def del: One_nat_def)
qed

text \<open>
  Claim C1, as the code has it. For a step \<open>i > 0\<close> of the pipeline, when the step before
  it has no stored result or its stored output is empty, \<open>executeAgent\<close> logs the
  dependency failure and returns at once: nothing is debited, no result is written and no
  provider call is issued. The check reads the output only: a predecessor with a
  non-empty output resolves the input whatever its status is.
\<close>

theorem C1_no_previous_output_fails:
  assumes "0 < i" and "i < length (agentConfigs s)"
  shows "(output_of s (agent_id (agentConfigs s ! (i - 1))) = None \<or>
          output_of s (agent_id (agentConfigs s ! (i - 1))) = Some [] \<longrightarrow>
            executeAgent_start i s =
              (NoPreviousOutput,
               onLog (''Cannot run '' @ name (agentConfigs s ! i) @
                      ''. Previous agent has no output.'') LogError s) \<and>
            executeAgent i r now s = executeAgent_start i s \<and>
            mana (snd (executeAgent i r now s)) = mana s \<and>
            experience (snd (executeAgent i r now s)) = experience s \<and>
            results (snd (executeAgent i r now s)) = results s \<and>
            calls (snd (executeAgent i r now s)) = calls s) \<and>
         (\<forall>t. output_of s (agent_id (agentConfigs s ! (i - 1))) = Some t \<and> t \<noteq> [] \<longrightarrow>
            resolve_input i s = Input t \<and>
            fst (executeAgent_start i s) \<noteq> NoPreviousOutput)"
proof (intro conjI impI allI)
  assume a: "output_of s (agent_id (agentConfigs s ! (i - 1))) = None \<or>
          output_of s (agent_id (agentConfigs s ! (i - 1))) = Some []"
  then have m: "resolve_input i s = Missing"
    using assms by (auto simp: resolve_input_succ)
  show st: "executeAgent_start i s =
              (NoPreviousOutput,
               onLog (''Cannot run '' @ name (agentConfigs s ! i) @
                      ''. Previous agent has no output.'') LogError s)"
    using assms(2) m by (rule start_missing)
  show ex: "executeAgent i r now s = executeAgent_start i s"
    by (rule executeAgent_not_awaiting) (simp add: st)
  show "mana (snd (executeAgent i r now s)) = mana s"
    and "experience (snd (executeAgent i r now s)) = experience s"
    and "results (snd (executeAgent i r now s)) = results s"
    and "calls (snd (executeAgent i r now s)) = calls s"
    by (simp_all add: ex st)
next
  fix t
  assume a: "output_of s (agent_id (agentConfigs s ! (i - 1))) = Some t \<and> t \<noteq> []"
  then show r: "resolve_input i s = Input t"
    using assms by (simp add: resolve_input_succ)
  show "fst (executeAgent_start i s) \<noteq> NoPreviousOutput"
    using assms(2) by (simp add: executeAgent_start_def r nth_opt_def Let_def)
qed

theorem C1_no_previous_output_fails_witness:
  "executeAgent_start 1 initial_app =
     (NoPreviousOutput,
      onLog ''Cannot run Reviewer. Previous agent has no output.'' LogError initial_app) \<and>
   mana (snd (executeAgent 1 (Returned (Some ''x'')) ''10:00:00'' initial_app)) = 60 \<and>
   resolve_input 1 rerun_failed_app = Input ''Summary A''"
proof -
  have o1: "output_of initial_app (agent_id (agentConfigs initial_app ! (1 - 1))) = None"
    by (simp add: output_of_def initial_app_def)
  have o2: "output_of rerun_failed_app (agent_id (agentConfigs rerun_failed_app ! (1 - 1))) =
      Some ''Summary A''"
    by code_simp
  have l: "(1::nat) < length (agentConfigs initial_app)"
    "(1::nat) < length (agentConfigs rerun_failed_app)"
    by code_simp+
  have n: "name (agentConfigs initial_app ! 1) = ''Reviewer''" "mana initial_app = 60"
    by (simp_all add: initial_app_def agent2_def)
  from C1_no_previous_output_fails [OF zero_less_one l(1), of "Returned (Some ''x'')" "''10:00:00''"]
    C1_no_previous_output_fails [OF zero_less_one l(2)] o1 o2 n
  show ?thesis by simp
qed

text \<open>
  The status of the predecessor is not consulted: after a successful run and a failed
  re-run, agent 1 is in status \<open>Error\<close> with its old output, and a run of agent 2 is
  accepted, debited and set to \<open>Running\<close>.
\<close>

theorem C1_status_not_consulted_counterexample:
  "status_of rerun_failed_app ''a1'' = Some Error \<and>
   output_of rerun_failed_app ''a1'' = Some ''Summary A'' \<and>
   agent_id (agentConfigs rerun_failed_app ! 0) = ''a1'' \<and>
   fst (executeAgent_start 1 rerun_failed_app) = Awaiting agent2 ''Summary A'' \<and>
   mana rerun_failed_app = 20 \<and>
   mana (snd (executeAgent_start 1 rerun_failed_app)) = 0 \<and>
   status_of (snd (executeAgent_start 1 rerun_failed_app)) ''a2'' = Some Running"
  by code_simp

section \<open>Resource accounting and input validation\<close>



text \<open>
  Claim C3. With a resolved, non-blank input and a pool below 20, \<open>executeAgent\<close> logs
  the resource failure and returns: the pool, the experience counter, the results and
  the provider trace are as before. Every start either leaves the pool alone or finds at
  least 20 in it and subtracts exactly 20, so from a non-negative pool no sequence of
  events takes the pool below 0.
\<close>

theorem C3_insufficient_mana_refused:
  "(resolve_input i s = Input t \<and> trim t \<noteq> [] \<and> mana s < 20 \<longrightarrow>
      executeAgent_start i s = (NotEnoughMana, onLog ''Not enough Mana!'' LogError s) \<and>
      executeAgent i r now s = executeAgent_start i s \<and>
      mana (snd (executeAgent i r now s)) = mana s \<and>
      experience (snd (executeAgent i r now s)) = experience s \<and>
      results (snd (executeAgent i r now s)) = results s \<and>
      calls (snd (executeAgent i r now s)) = calls s) \<and>
   (mana (snd (executeAgent_start i s)) = mana s \<or>
      20 \<le> mana s \<and> mana (snd (executeAgent_start i s)) = mana s - 20) \<and>
   (0 \<le> mana s \<longrightarrow> 0 \<le> mana (run_events tbl es s))"
proof (intro conjI impI)
  assume a: "resolve_input i s = Input t \<and> trim t \<noteq> [] \<and> mana s < 20"
  then show st: "executeAgent_start i s = (NotEnoughMana, onLog ''Not enough Mana!'' LogError s)"
    by (simp add: start_poor)
  show ex: "executeAgent i r now s = executeAgent_start i s"
    by (rule executeAgent_not_awaiting) (simp add: st)
  show "mana (snd (executeAgent i r now s)) = mana s"
    and "experience (snd (executeAgent i r now s)) = experience s"
    and "results (snd (executeAgent i r now s)) = results s"
    and "calls (snd (executeAgent i r now s)) = calls s"
    by (simp_all add: ex st)
next
  show "mana (snd (executeAgent_start i s)) = mana s \<or>
      20 \<le> mana s \<and> mana (snd (executeAgent_start i s)) = mana s - 20"
    by (rule start_mana)
next
  assume "0 \<le> mana s"
  then show "0 \<le> mana (run_events tbl es s)" by (simp add: run_events_mana)
qed

theorem C3_insufficient_mana_refused_witness:
  "executeAgent_start 0 (initial_app\<lparr>mana := 15\<rparr>) =
     (NotEnoughMana, onLog ''Not enough Mana!'' LogError (initial_app\<lparr>mana := 15\<rparr>)) \<and>
   mana (snd (executeAgent 0 (Returned (Some ''Summary A'')) ''10:00:00''
     (initial_app\<lparr>mana := 15\<rparr>))) = 15 \<and>
   results (snd (executeAgent 0 (Returned (Some ''Summary A'')) ''10:00:00''
     (initial_app\<lparr>mana := 15\<rparr>))) = Map.empty \<and>
   0 \<le> mana (run_events models [Start 0, Start 1, Start 0, Start 0, Start 0] initial_app)"
proof -
  have h: "resolve_input 0 (initial_app\<lparr>mana := 15\<rparr>) = Input ''Device X indications''"
    "trim ''Device X indications'' \<noteq> []" "mana (initial_app\<lparr>mana := 15\<rparr>) < 20"
    by code_simp+
  have v: "mana (initial_app\<lparr>mana := 15\<rparr>) = 15" "results (initial_app\<lparr>mana := 15\<rparr>) = Map.empty"
    by (simp_all add: initial_app_def)
  have p: "0 \<le> mana initial_app" by (simp add: initial_app_def)
  from C3_insufficient_mana_refused [of 0 "initial_app\<lparr>mana := 15\<rparr>" "''Device X indications''"
      "Returned (Some ''Summary A'')" "''10:00:00''"]
    C3_insufficient_mana_refused [of 0 initial_app "[]" "Returned None" "[]" models
      "[Start 0, Start 1, Start 0, Start 0, Start 0]"] h v p
  show ?thesis by simp
qed

text \<open>
  Claim C6. When the pipeline has a first step and the seed text is empty or all white
  space, a run of step 0 logs the validation failure and returns: the pool, the
  experience counter, every stored result and the provider trace are as before.
\<close>

theorem C6_blank_seed_rejected:
  assumes "agentConfigs s \<noteq> []" and "\<forall>ch\<in>set (globalInput s). whitespace ch"
  shows "executeAgent_start 0 s =
           (EmptyInput,
            onLog (''Input for '' @ name (agentConfigs s ! 0) @ '' is empty.'') LogError s) \<and>
         executeAgent 0 r now s = executeAgent_start 0 s \<and>
         mana (snd (executeAgent 0 r now s)) = mana s \<and>
         experience (snd (executeAgent 0 r now s)) = experience s \<and>
         results (snd (executeAgent 0 r now s)) = results s \<and>
         calls (snd (executeAgent 0 r now s)) = calls s"
proof -
  have l: "0 < length (agentConfigs s)" using assms(1) by simp
  have r: "resolve_input 0 s = Input (globalInput s)" by (simp add: resolve_input_def)
  have b: "trim (globalInput s) = []" using assms(2) by (simp add: trim_empty_iff)
  have st: "executeAgent_start 0 s =
           (EmptyInput,
            onLog (''Input for '' @ name (agentConfigs s ! 0) @ '' is empty.'') LogError s)"
    using l r b by (rule start_blank)
  have ex: "executeAgent 0 r now s = executeAgent_start 0 s"
    by (rule executeAgent_not_awaiting) (simp add: st)
  show ?thesis by (simp add: ex st)
qed

theorem C6_blank_seed_rejected_witness:
  "executeAgent_start 0 (initial_app\<lparr>globalInput := [CHR '' '', CHR 0x09, CHR 0x0A]\<rparr>) =
     (EmptyInput,
      onLog ''Input for Intake is empty.'' LogError
        (initial_app\<lparr>globalInput := [CHR '' '', CHR 0x09, CHR 0x0A]\<rparr>)) \<and>
   mana (snd (executeAgent 0 (Returned (Some ''x'')) ''10:00:00''
     (initial_app\<lparr>globalInput := [CHR '' '', CHR 0x09, CHR 0x0A]\<rparr>))) = 60"
proof -
  let ?s = "initial_app\<lparr>globalInput := [CHR '' '', CHR 0x09, CHR 0x0A]\<rparr>"
  have h: "agentConfigs ?s \<noteq> []" "\<forall>ch\<in>set (globalInput ?s). whitespace ch"
    by (simp_all add: initial_app_def whitespace_def)
  have v: "name (agentConfigs ?s ! 0) = ''Intake''" "mana ?s = 60"
    by (simp_all add: initial_app_def agent1_def)
  from C6_blank_seed_rejected [OF h, of "Returned (Some ''x'')" "''10:00:00''"] v
  show ?thesis by simp
qed

section \<open>Editing a configuration field\<close>

lemma handleUpdateConfig_nth:
  "k < length cs \<Longrightarrow>
     handleUpdateConfig tbl i upd cs ! k =
       (if agent_id (cs ! k) \<noteq> i then cs ! k else update_one tbl upd (cs ! k))"
  by (simp add: handleUpdateConfig_def)

lemma handleUpdateConfig_absent:
  "i \<notin> agent_id ` set cs \<Longrightarrow> handleUpdateConfig tbl i upd cs = cs"
  unfolding handleUpdateConfig_def by (induction cs) auto

text \<open>
  Claim C7. Writing \<open>model\<close> on the configurations whose id matches sets \<open>model\<close> to the
  value and \<open>provider\<close> to the provider of the first table entry for that model, or to
  \<open>gemini\<close> when the table has no entry for it; the other six fields of a matched step,
  every unmatched step, and the length and order of the list stay as they are. An update
  of any field with an id that no step carries returns the list unchanged. (Table
  entries carry a provider name, which is not the empty string.)
\<close>

theorem C7_model_update_recomputes_provider:
  "length (handleUpdateConfig tbl i (SetModel v) cs) = length cs \<and>
   (\<forall>k<length cs. agent_id (cs ! k) = i \<longrightarrow>
      model (handleUpdateConfig tbl i (SetModel v) cs ! k) = v \<and>
      provider (handleUpdateConfig tbl i (SetModel v) cs ! k) = provider_for tbl v \<and>
      agent_id (handleUpdateConfig tbl i (SetModel v) cs ! k) = agent_id (cs ! k) \<and>
      name (handleUpdateConfig tbl i (SetModel v) cs ! k) = name (cs ! k) \<and>
      description (handleUpdateConfig tbl i (SetModel v) cs ! k) = description (cs ! k) \<and>
      maxTokens (handleUpdateConfig tbl i (SetModel v) cs ! k) = maxTokens (cs ! k) \<and>
      temperature (handleUpdateConfig tbl i (SetModel v) cs ! k) = temperature (cs ! k) \<and>
      systemPrompt (handleUpdateConfig tbl i (SetModel v) cs ! k) = systemPrompt (cs ! k)) \<and>
   (\<forall>k<length cs. agent_id (cs ! k) \<noteq> i \<longrightarrow>
      handleUpdateConfig tbl i (SetModel v) cs ! k = cs ! k) \<and>
   (\<forall>m. find (\<lambda>m. model_id m = v) tbl = Some m \<and> model_provider m \<noteq> [] \<longrightarrow>
      provider_for tbl v = model_provider m) \<and>
   (v \<notin> model_id ` set tbl \<longrightarrow> provider_for tbl v = ''gemini'') \<and>
   (i \<notin> agent_id ` set cs \<longrightarrow> handleUpdateConfig tbl i upd cs = cs)"
proof (intro conjI allI impI)
  show "length (handleUpdateConfig tbl i (SetModel v) cs) = length cs"
    by (simp add: handleUpdateConfig_def)
next
  fix k assume "k < length cs" and "agent_id (cs ! k) = i"
  then have e: "handleUpdateConfig tbl i (SetModel v) cs ! k =
      (cs ! k)\<lparr>model := v, provider := provider_for tbl v\<rparr>"
    by (simp add: handleUpdateConfig_nth)
  show "model (handleUpdateConfig tbl i (SetModel v) cs ! k) = v"
    and "provider (handleUpdateConfig tbl i (SetModel v) cs ! k) = provider_for tbl v"
    and "agent_id (handleUpdateConfig tbl i (SetModel v) cs ! k) = agent_id (cs ! k)"
    and "name (handleUpdateConfig tbl i (SetModel v) cs ! k) = name (cs ! k)"
    and "description (handleUpdateConfig tbl i (SetModel v) cs ! k) = description (cs ! k)"
    and "maxTokens (handleUpdateConfig tbl i (SetModel v) cs ! k) = maxTokens (cs ! k)"
    and "temperature (handleUpdateConfig tbl i (SetModel v) cs ! k) = temperature (cs ! k)"
    and "systemPrompt (handleUpdateConfig tbl i (SetModel v) cs ! k) = systemPrompt (cs ! k)"
    by (simp_all add: e)
next
  fix k assume "k < length cs" and "agent_id (cs ! k) \<noteq> i"
  then show "handleUpdateConfig tbl i (SetModel v) cs ! k = cs ! k"
    by (simp add: handleUpdateConfig_nth)
next
  fix m assume "find (\<lambda>m. model_id m = v) tbl = Some m \<and> model_provider m \<noteq> []"
  then show "provider_for tbl v = model_provider m" by (simp add: provider_for_def)
next
  assume "v \<notin> model_id ` set tbl"
  then have "find (\<lambda>m. model_id m = v) tbl = None" by (auto simp: find_None_iff)
  then show "provider_for tbl v = ''gemini''" by (simp add: provider_for_def)
next
  assume "i \<notin> agent_id ` set cs"
  then show "handleUpdateConfig tbl i upd cs = cs" by (rule handleUpdateConfig_absent)
qed

theorem C7_model_update_recomputes_provider_witness:
  "handleUpdateConfig models ''a1'' (SetModel ''gpt-4o'') [agent1, agent2] =
     [agent1\<lparr>model := ''gpt-4o'', provider := ''openai''\<rparr>, agent2] \<and>
   provider_for models ''unknown-model'' = ''gemini'' \<and>
   handleUpdateConfig models ''a9'' (SetName ''x'') [agent1, agent2] = [agent1, agent2]"
proof -
  note a = C7_model_update_recomputes_provider
    [of models "''a9''" "''unknown-model''" "[agent1, agent2]" "SetName ''x''"]
  have "''unknown-model'' \<notin> model_id ` set models" by (simp add: models_def)
  then have "provider_for models ''unknown-model'' = ''gemini''" using a by blast
  moreover have "''a9'' \<notin> agent_id ` set [agent1, agent2]" by (simp add: agent1_def agent2_def)
  then have "handleUpdateConfig models ''a9'' (SetName ''x'') [agent1, agent2] = [agent1, agent2]"
    using a by blast
  moreover have "handleUpdateConfig models ''a1'' (SetModel ''gpt-4o'') [agent1, agent2] =
     [agent1\<lparr>model := ''gpt-4o'', provider := ''openai''\<rparr>, agent2]"
    by (simp add: handleUpdateConfig_def provider_for_def models_def agent1_def agent2_def)
  ultimately show ?thesis by simp
qed

section \<open>Editing a stored output\<close>

text \<open>
  Claim C8. \<open>handleSaveOutput\<close> sets the output stored for the given id to the new text,
  whatever the status of that result is; the result's status, error and timestamp, every
  other id's result, the pool and the experience counter are as before, and so are the
  configurations, the log and the provider trace.
\<close>

theorem C8_save_output_changes_output_only:
  "output_of (handleSaveOutput k newText s) k = Some newText \<and>
   status_of (handleSaveOutput k newText s) k = status_of s k \<and>
   error_of (handleSaveOutput k newText s) k = error_of s k \<and>
   timestamp_of (handleSaveOutput k newText s) k = timestamp_of s k \<and>
   (\<forall>j. j \<noteq> k \<longrightarrow> results (handleSaveOutput k newText s) j = results s j) \<and>
   mana (handleSaveOutput k newText s) = mana s \<and>
   experience (handleSaveOutput k newText s) = experience s \<and>
   agentConfigs (handleSaveOutput k newText s) = agentConfigs s \<and>
   logs (handleSaveOutput k newText s) = logs s \<and>
   calls (handleSaveOutput k newText s) = calls s"
  by (cases "results s k")
     (simp_all add: handleSaveOutput_def output_of_def status_of_def error_of_def timestamp_of_def)

theorem C8_save_output_changes_output_only_witness:
  "output_of (handleSaveOutput ''a1'' ''Edited'' rerun_failed_app) ''a1'' = Some ''Edited'' \<and>
   status_of (handleSaveOutput ''a1'' ''Edited'' rerun_failed_app) ''a1'' = Some Error \<and>
   error_of (handleSaveOutput ''a1'' ''Edited'' rerun_failed_app) ''a1'' = Some ''Network error'' \<and>
   mana (handleSaveOutput ''a1'' ''Edited'' rerun_failed_app) = 20"
proof -
  have v: "status_of rerun_failed_app ''a1'' = Some Error"
    "error_of rerun_failed_app ''a1'' = Some ''Network error''"
    "mana rerun_failed_app = 20"
    by code_simp+
  note a = C8_save_output_changes_output_only [of "''a1''" "''Edited''" rerun_failed_app]
  show ?thesis using a v by simp
qed

section \<open>Import and export\<close>



lemma upload_accepts_configs:
  "upload_accepts (JArr (map config_json cs)) \<longleftrightarrow> cs \<noteq> [] \<and> agent_id (hd cs) \<noteq> []"
  by (cases cs) (simp_all add: upload_accepts_def config_json_def)

lemma upload_configs_agentConfigs:
  "agentConfigs (upload_configs cs s) =
     (if cs \<noteq> [] \<and> agent_id (hd cs) \<noteq> [] then cs else agentConfigs s)"
  by (simp add: upload_configs_def handleUploadSettings_def upload_accepts_configs)

lemma upload_accepts_iff:
  "upload_accepts parsed \<longleftrightarrow>
     (\<exists>x rest v. parsed = JArr (x # rest) \<and> read_id x = Inr (Some v) \<and> truthy v)"
proof (cases parsed)
  case (JArr xs)
  show ?thesis
  proof (cases xs)
    case Nil
    with JArr show ?thesis by (simp add: upload_accepts_def)
  next
    case (Cons x rest)
    with JArr show ?thesis
      by (cases "read_id x") (auto simp: upload_accepts_def split: option.splits)
  qed
qed (simp_all add: upload_accepts_def)



text \<open>
  Claim C5, as the code has it. An import fails with the message
  \<open>Failed to parse settings file.\<close> and keeps the stored list as it is when the text does
  not parse, when the value is not an array, when the array is empty, when its first
  element has no \<open>id\<close>, and also when the first element's \<open>id\<close> is falsy (the empty
  string, 0, \<open>NaN\<close>, \<open>null\<close> or \<open>false\<close>). The import accepts exactly the non-empty arrays
  whose first element has a truthy \<open>id\<close>; then the stored list becomes the array's
  elements, whatever was stored before.
\<close>

theorem C5_import_needs_truthy_id:
  "handleUploadSettings Malformed current =
     (Some (''Failed to parse settings file.'', LogError), current) \<and>
   ((\<forall>xs. parsed \<noteq> JArr xs) \<longrightarrow>
      handleUploadSettings (Parsed parsed) current =
        (Some (''Failed to parse settings file.'', LogError), current)) \<and>
   handleUploadSettings (Parsed (JArr [])) current =
     (Some (''Failed to parse settings file.'', LogError), current) \<and>
   (read_id x = Inr None \<longrightarrow>
      handleUploadSettings (Parsed (JArr (x # rest))) current =
        (Some (''Failed to parse settings file.'', LogError), current)) \<and>
   (map_of kvs ''id'' = None \<longrightarrow>
      handleUploadSettings (Parsed (JArr (JObj kvs # rest))) current =
        (Some (''Failed to parse settings file.'', LogError), current)) \<and>
   (map_of kvs ''id'' = Some v \<and> \<not> truthy v \<longrightarrow>
      handleUploadSettings (Parsed (JArr (JObj kvs # rest))) current =
        (Some (''Failed to parse settings file.'', LogError), current)) \<and>
   (map_of kvs ''id'' = Some v \<and> truthy v \<longrightarrow>
      handleUploadSettings (Parsed (JArr (JObj kvs # rest))) current =
        (Some (''Agent configurations loaded successfully.'', LogSuccess), JObj kvs # rest)) \<and>
   (upload_accepts parsed \<longleftrightarrow>
      (\<exists>y ys w. parsed = JArr (y # ys) \<and> read_id y = Inr (Some w) \<and> truthy w)) \<and>
   (\<not> upload_accepts parsed \<longrightarrow>
      handleUploadSettings (Parsed parsed) current =
        (Some (''Failed to parse settings file.'', LogError), current)) \<and>
   (upload_accepts parsed \<longrightarrow>
      (\<exists>xs. parsed = JArr xs \<and> xs \<noteq> [] \<and>
         handleUploadSettings (Parsed parsed) current =
           (Some (''Agent configurations loaded successfully.'', LogSuccess), xs))) \<and>
   agentConfigs (upload_configs cs s) =
     (if cs \<noteq> [] \<and> agent_id (hd cs) \<noteq> [] then cs else agentConfigs s)"
proof (intro conjI impI)
  show "handleUploadSettings Malformed current =
     (Some (''Failed to parse settings file.'', LogError), current)"
    by (simp add: handleUploadSettings_def)
next
  assume "\<forall>xs. parsed \<noteq> JArr xs"
  then have "\<not> upload_accepts parsed" by (cases parsed) (simp_all add: upload_accepts_def)
  then show "handleUploadSettings (Parsed parsed) current =
        (Some (''Failed to parse settings file.'', LogError), current)"
    by (simp add: handleUploadSettings_def)
next
  show "handleUploadSettings (Parsed (JArr [])) current =
     (Some (''Failed to parse settings file.'', LogError), current)"
    by (simp add: handleUploadSettings_def upload_accepts_def)
next
  assume "read_id x = Inr None"
  then show "handleUploadSettings (Parsed (JArr (x # rest))) current =
        (Some (''Failed to parse settings file.'', LogError), current)"
    by (simp add: handleUploadSettings_def upload_accepts_def)
next
  assume "map_of kvs ''id'' = None"
  then show "handleUploadSettings (Parsed (JArr (JObj kvs # rest))) current =
        (Some (''Failed to parse settings file.'', LogError), current)"
    by (simp add: handleUploadSettings_def upload_accepts_def)
next
  assume "map_of kvs ''id'' = Some v \<and> \<not> truthy v"
  then show "handleUploadSettings (Parsed (JArr (JObj kvs # rest))) current =
        (Some (''Failed to parse settings file.'', LogError), current)"
    by (simp add: handleUploadSettings_def upload_accepts_def)
next
  assume "map_of kvs ''id'' = Some v \<and> truthy v"
  then show "handleUploadSettings (Parsed (JArr (JObj kvs # rest))) current =
        (Some (''Agent configurations loaded successfully.'', LogSuccess), JObj kvs # rest)"
    by (simp add: handleUploadSettings_def upload_accepts_def array_items_def)
next
  show "upload_accepts parsed \<longleftrightarrow>
      (\<exists>y ys w. parsed = JArr (y # ys) \<and> read_id y = Inr (Some w) \<and> truthy w)"
    by (rule upload_accepts_iff)
next
  assume "\<not> upload_accepts parsed"
  then show "handleUploadSettings (Parsed parsed) current =
        (Some (''Failed to parse settings file.'', LogError), current)"
    by (simp add: handleUploadSettings_def)
next
  assume a: "upload_accepts parsed"
  then obtain xs where p: "parsed = JArr xs" and n: "xs \<noteq> []"
    by (cases parsed) (auto simp: upload_accepts_def)
  have "handleUploadSettings (Parsed parsed) current =
           (Some (''Agent configurations loaded successfully.'', LogSuccess), xs)"
    using a by (simp add: handleUploadSettings_def array_items_def p)
  with p n show "\<exists>xs. parsed = JArr xs \<and> xs \<noteq> [] \<and>
         handleUploadSettings (Parsed parsed) current =
           (Some (''Agent configurations loaded successfully.'', LogSuccess), xs)"
    by blast
next
  show "agentConfigs (upload_configs cs s) =
     (if cs \<noteq> [] \<and> agent_id (hd cs) \<noteq> [] then cs else agentConfigs s)"
    by (rule upload_configs_agentConfigs)
qed

theorem C5_import_needs_truthy_id_witness:
  "handleUploadSettings (Parsed (JObj [(''id'', JStr ''a1'')])) [config_json agent1] =
     (Some (''Failed to parse settings file.'', LogError), [config_json agent1]) \<and>
   handleUploadSettings (Parsed (JArr [JObj [(''name'', JStr ''n'')]])) [config_json agent1] =
     (Some (''Failed to parse settings file.'', LogError), [config_json agent1]) \<and>
   handleUploadSettings (Parsed (JArr [JObj [(''id'', JStr ''b1'')], JNull]))
     [config_json agent1] =
     (Some (''Agent configurations loaded successfully.'', LogSuccess),
      [JObj [(''id'', JStr ''b1'')], JNull])"
proof -
  note a = C5_import_needs_truthy_id
    [where current = "[config_json agent1]" and parsed = "JObj [(''id'', JStr ''a1'')]"
       and rest = "[]" and kvs = "[(''name'', JStr ''n'')]"]
  note b = C5_import_needs_truthy_id
    [where current = "[config_json agent1]" and rest = "[JNull]"
       and kvs = "[(''id'', JStr ''b1'')]" and v = "JStr ''b1''"]
  have "\<forall>xs. JObj [(''id'', JStr ''a1'')] \<noteq> JArr xs" by simp
  then have 1: "handleUploadSettings (Parsed (JObj [(''id'', JStr ''a1'')])) [config_json agent1] =
     (Some (''Failed to parse settings file.'', LogError), [config_json agent1])"
    using a by blast
  have "map_of [(''name'', JStr ''n'')] ''id'' = None" by simp
  then have 2: "handleUploadSettings (Parsed (JArr [JObj [(''name'', JStr ''n'')]])) [config_json agent1] =
     (Some (''Failed to parse settings file.'', LogError), [config_json agent1])"
    using a by blast
  have "map_of [(''id'', JStr ''b1'')] ''id'' = Some (JStr ''b1'') \<and> truthy (JStr ''b1'')"
    by simp
  then have 3: "handleUploadSettings (Parsed (JArr [JObj [(''id'', JStr ''b1'')], JNull]))
     [config_json agent1] =
     (Some (''Agent configurations loaded successfully.'', LogSuccess),
      [JObj [(''id'', JStr ''b1'')], JNull])"
    using b by blast
  from 1 2 3 show ?thesis by blast
qed

text \<open>
  A file whose first element has an \<open>id\<close> field is still refused when the id is the empty
  string or 0: the payload is well-formed, a non-empty array, and its first element does
  not lack an \<open>id\<close>, yet nothing is imported.
\<close>

theorem C5_falsy_id_counterexample:
  "map_of [(''id'', JStr []), (''name'', JStr ''Intake'')] ''id'' = Some (JStr []) \<and>
   handleUploadSettings
     (Parsed (JArr [JObj [(''id'', JStr []), (''name'', JStr ''Intake'')]]))
     [config_json agent1] =
     (Some (''Failed to parse settings file.'', LogError), [config_json agent1]) \<and>
   map_of [(''id'', JNum (Finite 0))] ''id'' = Some (JNum (Finite 0)) \<and>
   handleUploadSettings (Parsed (JArr [JObj [(''id'', JNum (Finite 0))], config_json agent2]))
     [config_json agent1] =
     (Some (''Failed to parse settings file.'', LogError), [config_json agent1])"
  by (simp add: handleUploadSettings_def upload_accepts_def)




text \<open>The import also refuses what the export writes for the empty list, and for a list
  whose first id is the empty string; the stored list stays as it was.\<close>

lemma round_trip_refused:
  "handleUploadSettings (Parsed (fst (handleDownloadSettings (map config_json []))))
     [config_json agent1] =
     (Some (''Failed to parse settings file.'', LogError), [config_json agent1])"
  "handleUploadSettings
     (Parsed (fst (handleDownloadSettings (map config_json [agent2\<lparr>agent_id := []\<rparr>]))))
     [config_json agent1] =
     (Some (''Failed to parse settings file.'', LogError), [config_json agent1])"
  by (simp_all add: handleUploadSettings_def handleDownloadSettings_def upload_accepts_def
      config_json_def agent2_def)

section \<open>What a run writes to the result store\<close>

lemma start_awaitingD:
  assumes "fst (executeAgent_start i s) = Awaiting c t"
  shows "i < length (agentConfigs s) \<and> c = agentConfigs s ! i \<and>
         resolve_input i s = Input t \<and> trim t \<noteq> [] \<and> \<not> mana s < 20"
  using assms
  by (auto simp: executeAgent_start_def nth_opt_def Let_def
      split: resolved.splits option.splits if_splits)

lemma start_awaiting_state:
  assumes "fst (executeAgent_start i s) = Awaiting c t"
  shows "snd (executeAgent_start i s) =
     issue_call (build_request c t s)
       (onLog (''Agent '' @ name c @ '' started...'') LogInfo
         (set_running c (updateStats 20 0 s)))"
proof -
  from start_awaitingD [OF assms]
  have "i < length (agentConfigs s)" "c = agentConfigs s ! i" "resolve_input i s = Input t"
    "trim t \<noteq> []" "\<not> mana s < 20" by simp_all
  then show ?thesis using start_runs [of i s t] by simp
qed

lemma set_running_results:
  "results (set_running c s) = (results s)(agent_id c \<mapsto>
     \<lparr>status = Some Running, output_text = output_or_empty (results s) (agent_id c),
      error = None, timestamp = None\<rparr>)"
  by (simp add: set_running_def)

lemma start_cases:
  "executeAgent_start i s = (TypeError, s) \<or>
   executeAgent_start i s = (TypeError, updateStats 20 0 s) \<or>
   (\<exists>m. executeAgent_start i s = (NoPreviousOutput, onLog m LogError s)) \<or>
   (\<exists>m. executeAgent_start i s = (EmptyInput, onLog m LogError s)) \<or>
   executeAgent_start i s = (NotEnoughMana, onLog ''Not enough Mana!'' LogError s) \<or>
   (\<exists>(c::AgentConfig) t. fst (executeAgent_start i s) = Awaiting c t)"
  by (cases "resolve_input i s"; cases "nth_opt (agentConfigs s) i")
     (auto simp: executeAgent_start_def Let_def)

lemma start_results:
  "results (snd (executeAgent_start i s)) = results s \<or>
   (\<exists>c::AgentConfig. results (snd (executeAgent_start i s)) = (results s)(agent_id c \<mapsto>
     \<lparr>status = Some Running, output_text = output_or_empty (results s) (agent_id c),
      error = None, timestamp = None\<rparr>))"
proof -
  consider "results (snd (executeAgent_start i s)) = results s"
    | c :: AgentConfig and t where "fst (executeAgent_start i s) = Awaiting c t"
    using start_cases [of i s] by (elim disjE exE) simp_all
  then show ?thesis
  proof cases
    case 1
    then show ?thesis ..
  next
    case 2
    then have "results (snd (executeAgent_start i s)) = (results s)(agent_id c \<mapsto>
       \<lparr>status = Some Running, output_text = output_or_empty (results s) (agent_id c),
        error = None, timestamp = None\<rparr>)"
      by (simp add: start_awaiting_state set_running_results)
    then show ?thesis by blast
  qed
qed

lemma settle_results:
  "results (executeAgent_settle c r now s) = (results s)(agent_id c \<mapsto>
     (case response_of r of
        Inr response \<Rightarrow> \<lparr>status = Some Completed, output_text = response,
                         error = None, timestamp = Some now\<rparr>
      | Inl msg \<Rightarrow> \<lparr>status = Some Error,
                    output_text = output_or_empty (results s) (agent_id c),
                    error = Some msg, timestamp = None\<rparr>))"
  by (simp add: executeAgent_settle_def split: sum.splits)

lemma upload_configs_results: "results (upload_configs cs s) = results s"
  by (simp add: upload_configs_def handleUploadSettings_def
      split: prod.splits option.splits severity.splits if_splits)

text \<open>The two optional properties agree with the status.\<close>

lemma result_fields_step:
  assumes "\<forall>k. (timestamp_of s k \<noteq> None \<longrightarrow> status_of s k = Some Completed) \<and>
              (error_of s k \<noteq> None \<longrightarrow> status_of s k = Some Error)"
  shows "\<forall>k. (timestamp_of (step tbl e s) k \<noteq> None \<longrightarrow> status_of (step tbl e s) k = Some Completed) \<and>
             (error_of (step tbl e s) k \<noteq> None \<longrightarrow> status_of (step tbl e s) k = Some Error)"
proof (cases e)
  case (Start i)
  from start_results [of i s] show ?thesis
  proof
    assume "results (snd (executeAgent_start i s)) = results s"
    then show ?thesis using assms Start
      by (simp add: timestamp_of_def status_of_def error_of_def)
  next
    assume "\<exists>c::AgentConfig. results (snd (executeAgent_start i s)) = (results s)(agent_id c \<mapsto>
     \<lparr>status = Some Running, output_text = output_or_empty (results s) (agent_id c),
      error = None, timestamp = None\<rparr>)"
    then obtain c :: AgentConfig where "results (snd (executeAgent_start i s)) = (results s)(agent_id c \<mapsto>
     \<lparr>status = Some Running, output_text = output_or_empty (results s) (agent_id c),
      error = None, timestamp = None\<rparr>)" by blast
    then show ?thesis using assms Start
      by (simp add: timestamp_of_def status_of_def error_of_def)
  qed
next
  case (Settle c r now)
  then show ?thesis using assms
    by (cases "response_of r")
       (simp_all add: settle_results timestamp_of_def status_of_def error_of_def)
next
  case (SaveOutput k t)
  show ?thesis
  proof (cases "results s k")
    case None
    then show ?thesis using assms SaveOutput
      by (simp add: handleSaveOutput_def timestamp_of_def status_of_def error_of_def)
  next
    case (Some a)
    have "timestamp_of s k \<noteq> None \<longrightarrow> status_of s k = Some Completed"
      "error_of s k \<noteq> None \<longrightarrow> status_of s k = Some Error"
      using assms by simp_all
    then have "timestamp a \<noteq> None \<longrightarrow> status a = Some Completed"
      "error a \<noteq> None \<longrightarrow> status a = Some Error"
      using Some by (simp_all add: timestamp_of_def status_of_def error_of_def)
    then show ?thesis using assms SaveOutput Some
      by (simp add: handleSaveOutput_def timestamp_of_def status_of_def error_of_def)
  qed
next
  case (UpdateConfig i u)
  then show ?thesis using assms by (simp add: timestamp_of_def status_of_def error_of_def)
next
  case (Upload cs)
  then show ?thesis using assms
    by (simp add: upload_configs_results timestamp_of_def status_of_def error_of_def)
next
  case (SetInput t)
  then show ?thesis using assms by (simp add: timestamp_of_def status_of_def error_of_def)
next
  case (Remount defaults)
  then show ?thesis by (simp add: timestamp_of_def status_of_def error_of_def)
next
  case (SettleUnmounted c r now)
  then show ?thesis using assms
    by (simp add: executeAgent_settle_unmounted_def timestamp_of_def status_of_def error_of_def
        split: sum.splits)
qed

lemma result_fields_run_events:
  assumes "\<forall>k. (timestamp_of s k \<noteq> None \<longrightarrow> status_of s k = Some Completed) \<and>
              (error_of s k \<noteq> None \<longrightarrow> status_of s k = Some Error)"
  shows "\<forall>k. (timestamp_of (run_events tbl es s) k \<noteq> None \<longrightarrow>
                status_of (run_events tbl es s) k = Some Completed) \<and>
             (error_of (run_events tbl es s) k \<noteq> None \<longrightarrow>
                status_of (run_events tbl es s) k = Some Error)"
  using assms
proof (induction es arbitrary: s)
  case Nil
  then show ?case by simp
next
  case (Cons e es)
  from result_fields_step [OF Cons.prems, of tbl e]
  show ?case using Cons.IH [of "step tbl e s"] by simp
qed

section \<open>Re-entry and the lifecycle of a result\<close>

lemma start_agentConfigs: "agentConfigs (snd (executeAgent_start i s)) = agentConfigs s"
  using start_cases [of i s]
  by (elim disjE exE) (simp_all add: start_awaiting_state)

lemma start_sets_running:
  assumes "fst (executeAgent_start i s) = Awaiting c t"
  shows "status_of (snd (executeAgent_start i s)) (agent_id c) = Some Running"
    and "timestamp_of (snd (executeAgent_start i s)) (agent_id c) = None"
    and "error_of (snd (executeAgent_start i s)) (agent_id c) = None"
    and "output_of (snd (executeAgent_start i s)) (agent_id c) =
           Some (output_or_empty (results s) (agent_id c))"
  by (simp_all add: start_awaiting_state [OF assms] set_running_results
      status_of_def timestamp_of_def error_of_def output_of_def)

lemma click_run_disabled:
  assumes "i < length (agentConfigs s)"
    and "status_of s (agent_id (agentConfigs s ! i)) = Some Running"
  shows "click_run i s = (None, s)"
proof -
  have "run_disabled (agentConfigs s ! i) s"
    using assms(2) by (simp add: run_disabled_def status_of_def split: option.splits)
  then show ?thesis using assms(1) by (simp add: click_run_def nth_opt_def)
qed

lemma click_run_cases:
  "click_run i s = (None, s) \<or>
   (i < length (agentConfigs s) \<and>
    status_of s (agent_id (agentConfigs s ! i)) \<noteq> Some Running \<and>
    click_run i s = (Some (fst (executeAgent_start i s)), snd (executeAgent_start i s)))"
proof (cases "i < length (agentConfigs s)")
  case False
  then show ?thesis by (simp add: click_run_def nth_opt_def)
next
  case True
  show ?thesis
  proof (cases "run_disabled (agentConfigs s ! i) s")
    case True
    with \<open>i < length (agentConfigs s)\<close> show ?thesis by (simp add: click_run_def nth_opt_def)
  next
    case False
    then have "status_of s (agent_id (agentConfigs s ! i)) \<noteq> Some Running"
      by (simp add: run_disabled_def status_of_def split: option.splits)
    with True False show ?thesis
      by (simp add: click_run_def nth_opt_def split: prod.splits)
  qed
qed

lemma status_of_cong: "results s' = results s \<Longrightarrow> status_of s' k = status_of s k"
  by (simp add: status_of_def)

lemma status_of_update:
  "results s' = (results s)(j \<mapsto> r) \<Longrightarrow>
     status_of s' k = (if k = j then status r else status_of s k)"
  by (simp add: status_of_def)

lemma start_not_awaiting_results:
  assumes "\<forall>(c::AgentConfig) t. fst (executeAgent_start i s) \<noteq> Awaiting c t"
  shows "results (snd (executeAgent_start i s)) = results s"
  using start_cases [of i s] assms by (elim disjE exE) simp_all

lemma status_of_save: "status_of (handleSaveOutput k t s) j = status_of s j"
  by (cases "results s k") (simp_all add: handleSaveOutput_def status_of_def)

lemma exclusiveI:
  "distinct (map agent_id ps) \<Longrightarrow> (\<And>c. c \<in> set ps \<Longrightarrow> status_of s (agent_id c) = Some Running) \<Longrightarrow>
     exclusive \<lparr>live = s, pending = ps, orphaned = os\<rparr>"
  by (simp add: exclusive_def list_all_iff)

lemma exclusive_live:
  assumes "exclusive u" and "\<And>k. status_of s' k = status_of (live u) k"
  shows "exclusive (u\<lparr>live := s'\<rparr>)"
  using assms by (simp add: exclusive_def list_all_iff)

lemma exclusive_click:
  assumes "exclusive u"
  shows "exclusive (ui_step tbl (ClickRun i) u)"
proof -
  let ?s = "live u"
  from click_run_cases [of i ?s] show ?thesis
  proof
    assume "click_run i ?s = (None, ?s)"
    then show ?thesis using assms by (simp add: exclusive_def)
  next
    assume a: "i < length (agentConfigs ?s) \<and>
      status_of ?s (agent_id (agentConfigs ?s ! i)) \<noteq> Some Running \<and>
      click_run i ?s = (Some (fst (executeAgent_start i ?s)), snd (executeAgent_start i ?s))"
    let ?s' = "snd (executeAgent_start i ?s)"
    show ?thesis
    proof (cases "\<exists>(c::AgentConfig) t. fst (executeAgent_start i ?s) = Awaiting c t")
      case True
      then obtain c :: AgentConfig and t where aw: "fst (executeAgent_start i ?s) = Awaiting c t"
        by blast
      from start_awaitingD [OF aw] have c: "c = agentConfigs ?s ! i" by simp
      have res: "results ?s' = (results ?s)(agent_id c \<mapsto>
          \<lparr>status = Some Running, output_text = output_or_empty (results ?s) (agent_id c),
           error = None, timestamp = None\<rparr>)"
        by (simp add: start_awaiting_state [OF aw] set_running_results)
      have st: "\<And>k. status_of ?s' k = (if k = agent_id c then Some Running else status_of ?s k)"
        using status_of_update [OF res] by simp
      have notin: "agent_id c \<notin> agent_id ` set (pending u)"
      proof
        assume "agent_id c \<in> agent_id ` set (pending u)"
        then obtain d where "d \<in> set (pending u)" "agent_id d = agent_id c" by auto
        then have "status_of ?s (agent_id c) = Some Running"
          using assms by (auto simp: exclusive_def list_all_iff)
        then show False using a c by simp
      qed
      have step: "ui_step tbl (ClickRun i) u = u\<lparr>live := ?s', pending := pending u @ [c]\<rparr>"
        using a aw by simp
      show ?thesis unfolding step
        using assms notin by (auto simp: exclusive_def list_all_iff st)
    next
      case False
      then have n: "\<forall>(c::AgentConfig) t. fst (executeAgent_start i ?s) \<noteq> Awaiting c t" by blast
      have res: "results ?s' = results ?s" using n by (rule start_not_awaiting_results)
      have step: "ui_step tbl (ClickRun i) u = u\<lparr>live := ?s'\<rparr>"
        using a n by (cases "fst (executeAgent_start i ?s)") simp_all
      show ?thesis unfolding step
        using assms by (intro exclusive_live) (simp_all add: status_of_cong [OF res])
    qed
  qed
qed

lemma distinct_drop_nth: "distinct (map f xs) \<Longrightarrow> distinct (map f (drop_nth k xs))"
proof -
  assume d: "distinct (map f xs)"
  have "map f xs = map f (take k xs) @ map f (drop k xs)"
    by (simp flip: map_append)
  with d have a: "distinct (map f (take k xs))" "distinct (map f (drop k xs))"
    "set (map f (take k xs)) \<inter> set (map f (drop k xs)) = {}"
    by (simp_all del: map_append)
  have "set (drop (Suc k) xs) \<subseteq> set (drop k xs)" by (simp add: set_drop_subset_set_drop)
  moreover have "distinct (map f (drop (Suc k) xs))"
    using a(2) by (metis distinct_drop drop_map drop_Suc tl_drop distinct_tl)
  ultimately show ?thesis using a by (auto simp: drop_nth_def)
qed

lemma set_drop_nth: "set (drop_nth k xs) \<subseteq> set xs"
  by (auto simp: drop_nth_def dest: in_set_takeD in_set_dropD)

lemma drop_nth_other:
  assumes "distinct (map f xs)" "k < length xs" "c \<in> set (drop_nth k xs)"
  shows "f c \<noteq> f (xs ! k)"
proof -
  have xs: "xs = take k xs @ (xs ! k) # drop (Suc k) xs"
    using assms(2) by (simp add: id_take_nth_drop)
  then have "distinct (map f (take k xs @ (xs ! k) # drop (Suc k) xs))"
    using assms(1) by simp
  then have "f (xs ! k) \<notin> f ` set (take k xs)" "f (xs ! k) \<notin> f ` set (drop (Suc k) xs)"
    by auto
  moreover have "c \<in> set (take k xs) \<or> c \<in> set (drop (Suc k) xs)"
    using assms(3) by (simp add: drop_nth_def)
  then have "f c \<in> f ` set (take k xs) \<or> f c \<in> f ` set (drop (Suc k) xs)"
    by blast
  ultimately show ?thesis by metis
qed

lemma exclusive_reply:
  assumes "exclusive u"
  shows "exclusive (ui_step tbl (ProviderReplies k r now) u)"
proof (cases "k < length (pending u)")
  case False
  then show ?thesis using assms by simp
next
  case True
  let ?c = "pending u ! k"
  have d: "distinct (map agent_id (pending u))"
    and run: "\<And>c. c \<in> set (pending u) \<Longrightarrow> status_of (live u) (agent_id c) = Some Running"
    using assms by (simp_all add: exclusive_def list_all_iff)
  have st: "\<And>j. j \<noteq> agent_id ?c \<Longrightarrow>
      status_of (executeAgent_settle ?c r now (live u)) j = status_of (live u) j"
    by (simp add: status_of_def settle_results)
  have "distinct (map agent_id (drop_nth k (pending u)))"
    using d by (rule distinct_drop_nth)
  moreover have "\<And>c. c \<in> set (drop_nth k (pending u)) \<Longrightarrow>
      status_of (executeAgent_settle ?c r now (live u)) (agent_id c) = Some Running"
  proof -
    fix c assume c: "c \<in> set (drop_nth k (pending u))"
    then have "agent_id c \<noteq> agent_id ?c" using d True by (intro drop_nth_other)
    moreover have "c \<in> set (pending u)" using c set_drop_nth by fastforce
    ultimately show "status_of (executeAgent_settle ?c r now (live u)) (agent_id c) = Some Running"
      using st run by simp
  qed
  ultimately show ?thesis using True by (simp add: exclusive_def list_all_iff)
qed

lemma exclusive_step:
  assumes "exclusive u"
  shows "exclusive (ui_step tbl e u)"
proof (cases e)
  case (ClickRun i)
  then show ?thesis using assms by (simp only: exclusive_click)
next
  case (ProviderReplies k r now)
  then show ?thesis using assms by (simp only: exclusive_reply)
next
  case (OrphanReplies k r now)
  have "results (executeAgent_settle_unmounted (orphaned u ! k) r now (live u)) = results (live u)"
    by (simp add: executeAgent_settle_unmounted_def split: sum.splits)
  then show ?thesis using assms OrphanReplies
    by (simp add: exclusive_def list_all_iff status_of_def)
next
  case (EditOutput k t)
  then show ?thesis using assms by (simp add: exclusive_def list_all_iff status_of_save)
next
  case (EditField i upd)
  then show ?thesis using assms by (simp add: exclusive_def list_all_iff status_of_def)
next
  case (ImportFile cs)
  then show ?thesis using assms
    by (simp add: exclusive_def list_all_iff status_of_def upload_configs_results)
next
  case (TypeSeed t)
  then show ?thesis using assms by (simp add: exclusive_def list_all_iff status_of_def)
next
  case (LeaveAndReturn defaults)
  then show ?thesis by (simp add: exclusive_def)
qed

lemma exclusive_run: "exclusive u \<Longrightarrow> exclusive (ui_run tbl es u)"
  by (induction es arbitrary: u) (simp_all add: exclusive_step)

text \<open>
  Claim C9, as the code has it. \<open>executeAgent\<close> is reached only through the Run button,
  which is disabled while the stored result of its step is \<open>Running\<close>: a click then
  changes nothing (no debit, no result written, no provider call, nothing logged). Within
  one mounted instance of the component, whatever the user and the provider do, no two
  pending runs are for the same step id and every pending run's result is \<open>Running\<close>, so
  a click on a step that has a pending run is ignored.
\<close>

theorem C9_running_step_not_restarted:
  "(i < length (agentConfigs s) \<and> status_of s (agent_id (agentConfigs s ! i)) = Some Running \<longrightarrow>
      click_run i s = (None, s)) \<and>
   (exclusive u \<longrightarrow> exclusive (ui_run tbl es u)) \<and>
   (pending u = [] \<longrightarrow>
      distinct (map agent_id (pending (ui_run tbl es u))) \<and>
      (\<forall>c\<in>set (pending (ui_run tbl es u)).
         status_of (live (ui_run tbl es u)) (agent_id c) = Some Running)) \<and>
   (exclusive u \<and> j < length (agentConfigs (live u)) \<and>
    agent_id (agentConfigs (live u) ! j) \<in> agent_id ` set (pending u) \<longrightarrow>
      ui_step tbl (ClickRun j) u = u)"
proof (intro conjI impI)
  assume "i < length (agentConfigs s) \<and> status_of s (agent_id (agentConfigs s ! i)) = Some Running"
  then show "click_run i s = (None, s)" by (simp add: click_run_disabled)
next
  assume "exclusive u"
  then show "exclusive (ui_run tbl es u)" by (rule exclusive_run)
next
  assume "pending u = []"
  then have "exclusive u" by (simp add: exclusive_def)
  then have e: "exclusive (ui_run tbl es u)" by (rule exclusive_run)
  from e show "distinct (map agent_id (pending (ui_run tbl es u)))"
    by (simp add: exclusive_def)
  from e show "\<forall>c\<in>set (pending (ui_run tbl es u)).
         status_of (live (ui_run tbl es u)) (agent_id c) = Some Running"
    by (simp add: exclusive_def list_all_iff)
next
  assume a: "exclusive u \<and> j < length (agentConfigs (live u)) \<and>
    agent_id (agentConfigs (live u) ! j) \<in> agent_id ` set (pending u)"
  then obtain d where "d \<in> set (pending u)"
    "agent_id d = agent_id (agentConfigs (live u) ! j)" by auto
  then have "status_of (live u) (agent_id (agentConfigs (live u) ! j)) = Some Running"
    using a by (auto simp: exclusive_def list_all_iff)
  then have "click_run j (live u) = (None, live u)"
    using a by (simp add: click_run_disabled)
  then show "ui_step tbl (ClickRun j) u = u" by simp
qed

theorem C9_running_step_not_restarted_witness:
  "map agent_id (pending (ui_run models [ClickRun 0, ClickRun 0, ClickRun 1] fresh_session)) =
     [''a1''] \<and>
   status_of (live (ui_run models [ClickRun 0, ClickRun 0, ClickRun 1] fresh_session)) ''a1'' =
     Some Running \<and>
   mana (live (ui_run models [ClickRun 0, ClickRun 0, ClickRun 1] fresh_session)) = 40 \<and>
   length (calls (live (ui_run models [ClickRun 0, ClickRun 0, ClickRun 1] fresh_session))) = 1"
proof -
  let ?u = "ui_run models [ClickRun 0, ClickRun 0, ClickRun 1] fresh_session"
  have p: "pending fresh_session = []" by (simp add: fresh_session_def)
  have m: "map agent_id (pending ?u) = [''a1'']" by code_simp
  then obtain c where c: "c \<in> set (pending ?u)" "agent_id c = ''a1''"
    by (cases "pending ?u") auto
  have "\<forall>c\<in>set (pending ?u). status_of (live ?u) (agent_id c) = Some Running"
    using C9_running_step_not_restarted
      [where u = fresh_session and tbl = models and es = "[ClickRun 0, ClickRun 0, ClickRun 1]"] p
    by blast
  then have "status_of (live ?u) ''a1'' = Some Running" using c by auto
  moreover have "mana (live ?u) = 40" "length (calls (live ?u)) = 1" by code_simp+
  ultimately show ?thesis using m by blast
qed

text \<open>
  The guard does not outlive the mounted instance. Run is clicked on agent 1; while its
  provider call is pending the user leaves the pipeline tab and comes back; the results
  are empty again, the button is enabled, and a second click is accepted: the pool is
  debited a second time and a second provider call is issued for the same step, with the
  first one still unsettled.
\<close>

theorem C9_revisit_counterexample:
  "map agent_id (orphaned revisited_session) = [''a1''] \<and>
   map agent_id (pending revisited_session) = [''a1''] \<and>
   mana (live fresh_session) = 60 \<and>
   mana (live revisited_session) = 20 \<and>
   map req_model (calls (live revisited_session)) = [''gemini-2.5-flash'', ''gemini-2.5-flash''] \<and>
   map req_prompt (calls (live revisited_session)) =
     [''Summarise.'' @ [CHR 0x0A, CHR 0x0A] @ ''[TASK INPUT]:'' @ [CHR 0x0A] @ ''Device X indications'',
      ''Summarise.'' @ [CHR 0x0A, CHR 0x0A] @ ''[TASK INPUT]:'' @ [CHR 0x0A] @ ''Device X indications'']"
  by code_simp

text \<open>
  Claim C10. From a state with no results, after any sequence of events, a stored result
  carries a timestamp only in status \<open>Completed\<close> and an error message only in status
  \<open>Error\<close>. The record written when a run starts has status \<open>Running\<close>, the previous
  output, no error and no timestamp; the record written on failure has status \<open>Error\<close>,
  the previous output, the failure message and no timestamp; the record written on
  success has status \<open>Completed\<close>, the response, the time and no error.
\<close>

theorem C10_timestamp_only_when_completed:
  "(results s = Map.empty \<longrightarrow>
      (\<forall>k. (timestamp_of (run_events tbl es s) k \<noteq> None \<longrightarrow>
               status_of (run_events tbl es s) k = Some Completed) \<and>
            (error_of (run_events tbl es s) k \<noteq> None \<longrightarrow>
               status_of (run_events tbl es s) k = Some Error))) \<and>
   (fst (executeAgent_start i s) = Awaiting c t \<longrightarrow>
      status_of (snd (executeAgent_start i s)) (agent_id c) = Some Running \<and>
      timestamp_of (snd (executeAgent_start i s)) (agent_id c) = None \<and>
      error_of (snd (executeAgent_start i s)) (agent_id c) = None \<and>
      output_of (snd (executeAgent_start i s)) (agent_id c) =
        Some (output_or_empty (results s) (agent_id c))) \<and>
   (\<forall>msg. response_of r = Inl msg \<longrightarrow>
      status_of (executeAgent_settle c r now s) (agent_id c) = Some Error \<and>
      timestamp_of (executeAgent_settle c r now s) (agent_id c) = None \<and>
      error_of (executeAgent_settle c r now s) (agent_id c) = Some msg \<and>
      output_of (executeAgent_settle c r now s) (agent_id c) =
        Some (output_or_empty (results s) (agent_id c))) \<and>
   (\<forall>response. response_of r = Inr response \<longrightarrow>
      status_of (executeAgent_settle c r now s) (agent_id c) = Some Completed \<and>
      timestamp_of (executeAgent_settle c r now s) (agent_id c) = Some now \<and>
      error_of (executeAgent_settle c r now s) (agent_id c) = None \<and>
      output_of (executeAgent_settle c r now s) (agent_id c) = Some response)"
proof (intro conjI impI allI)
  fix k
  assume e: "results s = Map.empty"
  have "\<forall>k. (timestamp_of s k \<noteq> None \<longrightarrow> status_of s k = Some Completed) \<and>
            (error_of s k \<noteq> None \<longrightarrow> status_of s k = Some Error)"
    by (simp add: e timestamp_of_def error_of_def)
  from result_fields_run_events [OF this, of tbl es]
  show "timestamp_of (run_events tbl es s) k \<noteq> None \<Longrightarrow>
          status_of (run_events tbl es s) k = Some Completed"
    and "error_of (run_events tbl es s) k \<noteq> None \<Longrightarrow>
          status_of (run_events tbl es s) k = Some Error"
    by blast+
next
  assume a: "fst (executeAgent_start i s) = Awaiting c t"
  show "status_of (snd (executeAgent_start i s)) (agent_id c) = Some Running"
    and "timestamp_of (snd (executeAgent_start i s)) (agent_id c) = None"
    and "error_of (snd (executeAgent_start i s)) (agent_id c) = None"
    and "output_of (snd (executeAgent_start i s)) (agent_id c) =
        Some (output_or_empty (results s) (agent_id c))"
    using start_sets_running [OF a] by simp_all
next
  fix msg assume "response_of r = Inl msg"
  then show "status_of (executeAgent_settle c r now s) (agent_id c) = Some Error"
    and "timestamp_of (executeAgent_settle c r now s) (agent_id c) = None"
    and "error_of (executeAgent_settle c r now s) (agent_id c) = Some msg"
    and "output_of (executeAgent_settle c r now s) (agent_id c) =
        Some (output_or_empty (results s) (agent_id c))"
    by (simp_all add: settle_results status_of_def timestamp_of_def error_of_def output_of_def)
next
  fix response assume "response_of r = Inr response"
  then show "status_of (executeAgent_settle c r now s) (agent_id c) = Some Completed"
    and "timestamp_of (executeAgent_settle c r now s) (agent_id c) = Some now"
    and "error_of (executeAgent_settle c r now s) (agent_id c) = None"
    and "output_of (executeAgent_settle c r now s) (agent_id c) = Some response"
    by (simp_all add: settle_results status_of_def timestamp_of_def error_of_def output_of_def)
qed

theorem C10_timestamp_only_when_completed_witness:
  "timestamp_of
     (run_events models
        [Start 0, Settle agent1 (Returned (Some ''Summary A'')) ''10:00:00''] initial_app)
     ''a1'' = Some ''10:00:00'' \<and>
   status_of rerun_failed_app ''a1'' = Some Error \<and>
   timestamp_of rerun_failed_app ''a1'' = None \<and>
   output_of rerun_failed_app ''a1'' = Some ''Summary A''"
proof -
  have e: "results initial_app = Map.empty" by (simp add: initial_app_def)
  have n: "error_of rerun_failed_app ''a1'' \<noteq> None" by code_simp
  have "status_of rerun_failed_app ''a1'' = Some Error"
    using C10_timestamp_only_when_completed
      [of initial_app models
        "[Start 0, Settle agent1 (Returned (Some ''Summary A'')) ''10:00:00'',
          Start 0, Settle agent1 (Threw ''Network error'') ''10:01:00'']"
        0 agent1 "[]" "Threw ''Network error''" "[]"] e n
    unfolding rerun_failed_app_def by blast
  moreover have "timestamp_of
     (run_events models
        [Start 0, Settle agent1 (Returned (Some ''Summary A'')) ''10:00:00''] initial_app)
     ''a1'' = Some ''10:00:00''"
    by code_simp
  moreover have "timestamp_of rerun_failed_app ''a1'' = None"
    "output_of rerun_failed_app ''a1'' = Some ''Summary A''"
    by code_simp+
  ultimately show ?thesis by blast
qed

end
